theory Spec2Isabelle
  imports Main "HOL-Library.Word" "HOL-Library.Finite_Map"
begin

section \<open>The picture rasterization cache of sky/compositor\<close>

text \<open>
  A shallow embedding of \<^verbatim>\<open>sky/compositor/picture_rasterizer.cc\<close>,
  \<^verbatim>\<open>picture_layer.cc\<close> and \<^verbatim>\<open>paint_context.cc\<close>. Mutation of the
  rasterizer object is explicit state passing; the calls into Skia and the GPU backend are
  recorded as a list of calls, with their outcomes supplied by the \<open>GrContext\<close> value
  that each call receives; a failed \<^verbatim>\<open>DCHECK\<close> is a fault value.
\<close>

subsection \<open>Skia values the code handles\<close>

text \<open>
  \<^verbatim>\<open>SkISize\<close> is a pair of 32-bit integers, read as signed by \<open>sint\<close>.
  Skia's \<^verbatim>\<open>SkISize::isEmpty\<close> holds when either extent is not positive (a size
  of zero area).
\<close>

record SkISize =
  width :: "32 word"
  height :: "32 word"

definition isEmpty :: "SkISize \<Rightarrow> bool" where
  "isEmpty sz \<longleftrightarrow> sint (width sz) \<le> 0 \<or> sint (height sz) \<le> 0"

text \<open>Of a picture the code reads its \<^verbatim>\<open>uniqueID()\<close>; its content is opaque.\<close>

record SkPicture =
  uniqueID :: "32 word"

text \<open>
  Of the matrix the code reads the two scale factors. \<^verbatim>\<open>SkScalar\<close> is a
  floating-point type; it is kept abstract as the type variable \<open>'s\<close>.
\<close>

record 's SkMatrix =
  getScaleX :: 's
  getScaleY :: 's

text \<open>
  \<open>Quot n d\<close> stands for the integer that \<^verbatim>\<open>n / d\<close> yields in C++ when
  \<open>n\<close> is an \<^verbatim>\<open>int\<close> and \<open>d\<close> a \<^verbatim>\<open>SkScalar\<close>; the floating-point
  division is not evaluated.
\<close>

datatype 's extent = Quot "32 word" 's

record GrSurfaceDesc =
  fWidth :: "32 word"
  fHeight :: "32 word"

record ('tex, 's) GrBackendTextureDesc =
  textureDesc_fWidth :: "'s extent"
  textureDesc_fHeight :: "'s extent"
  fTextureHandle :: 'tex

text \<open>
  The GPU backend as one call of the rasterizer sees it: whether the texture provider
  hands out a texture for a surface description, and whether Skia wraps the texture into
  an image. Two calls of the rasterizer may receive different backends (memory pressure
  comes and goes).
\<close>

record ('tex, 'img, 's) GrContext =
  createTexture :: "GrSurfaceDesc \<Rightarrow> 'tex option"
  NewFromTexture :: "('tex, 's) GrBackendTextureDesc \<Rightarrow> 'img option"

text \<open>The calls into the GPU backend and onto the offscreen canvas, in program order.\<close>

datatype ('tex, 's) gpu_call =
    CreateTexture GrSurfaceDesc
  | SetMatrix 's 's
  | DrawPictureOffscreen SkPicture
  | DrawCheckerboard "'s extent" "'s extent"
  | ImageNewFromTexture "('tex, 's) GrBackendTextureDesc"

datatype CompositorOption =
    DisplayFrameStatistics
  | DisplayRasterizerStatistics
  | HightlightRasterizedImages

subsection \<open>The rasterizer's data\<close>

record Key =
  pictureID :: "32 word"
  key_size :: SkISize

text \<open>
  Modelled from the spec: the header \<^verbatim>\<open>picture_rasterizer.h\<close> is not among the
  sources, so the sentinel \<^verbatim>\<open>Value::kDeadAccessCount\<close> and the type of
  \<^verbatim>\<open>access_count\<close> are taken from the specification: the counter is a signed
  integer, and DEAD is the value that two decrements reach from 1. The counter is an
  \<open>int\<close> here: overflow of a signed integer is undefined in C++, and nothing below
  depends on it, since a counter moves by one per call.
\<close>

definition kDeadAccessCount :: int where
  "kDeadAccessCount = - 1"

record 'img Value =
  access_count :: int
  image :: "'img option"

text \<open>\<^verbatim>\<open>Value::Value()\<close>: a dead entry without an image.\<close>

definition Value_ctor :: "'img Value" where
  "Value_ctor = \<lparr>access_count = kDeadAccessCount, image = None\<rparr>"

text \<open>
  The object: the \<^verbatim>\<open>std::unordered_map\<close> from keys to values as a finite map
  (two keys are equal when both fields are), and the three instrumentation counters.
  Modelled from the spec: the counter class is not among the sources; the specification
  has three counters that only grow, natural numbers here.
\<close>

record 'img PictureRasterzier =
  cache :: "(Key, 'img Value) fmap"
  cache_hits :: nat
  cache_fills :: nat
  cache_evictions :: nat

text \<open>\<^verbatim>\<open>PictureRasterzier::PictureRasterzier()\<close>: an empty cache, counters at zero.\<close>

definition PictureRasterzier_ctor :: "'img PictureRasterzier" where
  "PictureRasterzier_ctor =
     \<lparr>cache = fmempty, cache_hits = 0, cache_fills = 0, cache_evictions = 0\<rparr>"

text \<open>
  The two debug assertions: \<^verbatim>\<open>DCHECK(value.access_count == 1)\<close> in
  \<^verbatim>\<open>GetCachedImageIfPresent\<close> and \<^verbatim>\<open>DCHECK(picture_)\<close> in
  \<^verbatim>\<open>PictureLayer::Paint\<close>. A failed assertion ends the process.
\<close>

datatype fault = DCheck_access_count | DCheck_picture

subsection \<open>ImageFromPicture\<close>

text \<open>
  The four steps of the source: the texture (and the early return when the provider has
  none), the description of the backend texture, the drawing onto the offscreen canvas,
  the image. The fill counter moves only when Skia returns an image. Flags, pixel
  configuration and sample count are constants of the source and are left out of the
  descriptions. The source asserts that the render target, the surface and the canvas of
  a texture it was given are not null; the model takes Skia to keep that promise. The
  callback that drops the texture when the image dies is outside the model, which counts
  no references.
\<close>

definition ImageFromPicture ::
  "(CompositorOption \<Rightarrow> bool) \<Rightarrow> ('tex, 'img, 's) GrContext \<Rightarrow> SkPicture \<Rightarrow> SkISize \<Rightarrow>
   's SkMatrix \<Rightarrow> 'img PictureRasterzier \<Rightarrow>
   ('img option \<times> ('tex, 's) gpu_call list) \<times> 'img PictureRasterzier" where
  "ImageFromPicture opts gr_context picture physical_size incoming_ctm s =
    (let surfaceDesc = \<lparr>fWidth = width physical_size, fHeight = height physical_size\<rparr> in
     case createTexture gr_context surfaceDesc of
       None \<Rightarrow> ((None, [CreateTexture surfaceDesc]), s)
     | Some texture \<Rightarrow>
        (let textureDesc =
               \<lparr>textureDesc_fWidth = Quot (width physical_size) (getScaleX incoming_ctm),
                textureDesc_fHeight = Quot (height physical_size) (getScaleY incoming_ctm),
                fTextureHandle = texture\<rparr>;
             draws =
               [SetMatrix (getScaleX incoming_ctm) (getScaleY incoming_ctm),
                DrawPictureOffscreen picture] @
               (if opts HightlightRasterizedImages
                then [DrawCheckerboard (textureDesc_fWidth textureDesc)
                        (textureDesc_fHeight textureDesc)]
                else []);
             img = NewFromTexture gr_context textureDesc;
             calls = CreateTexture surfaceDesc # draws @ [ImageNewFromTexture textureDesc]
         in ((img, calls),
             (if img \<noteq> None then s\<lparr>cache_fills := cache_fills s + 1\<rparr> else s))))"

subsection \<open>GetCachedImageIfPresent\<close>

text \<open>
  \<open>dcheck_on\<close> tells whether the build compiles \<^verbatim>\<open>DCHECK\<close> in; a null pointer
  is \<open>None\<close>. \<^verbatim>\<open>cache_[key]\<close> finds the entry or inserts \<^verbatim>\<open>Value()\<close>.
\<close>

definition GetCachedImageIfPresent ::
  "bool \<Rightarrow> (CompositorOption \<Rightarrow> bool) \<Rightarrow> ('tex, 'img, 's) GrContext option \<Rightarrow>
   SkPicture option \<Rightarrow> SkISize \<Rightarrow> 's SkMatrix \<Rightarrow> 'img PictureRasterzier \<Rightarrow>
   fault + (('img option \<times> ('tex, 's) gpu_call list) \<times> 'img PictureRasterzier)" where
  "GetCachedImageIfPresent dcheck_on opts gr_context picture physical_size incoming_ctm s =
    (if isEmpty physical_size then Inr ((None, []), s)
     else case picture of
       None \<Rightarrow> Inr ((None, []), s)
     | Some pic \<Rightarrow>
        (case gr_context of
           None \<Rightarrow> Inr ((None, []), s)
         | Some gr \<Rightarrow>
            (let key = \<lparr>pictureID = uniqueID pic, key_size = physical_size\<rparr>;
                 val = (case fmlookup (cache s) key of None \<Rightarrow> Value_ctor | Some v \<Rightarrow> v)
             in if access_count val = kDeadAccessCount
                then Inr ((None, []),
                          s\<lparr>cache := fmupd key (val\<lparr>access_count := 1\<rparr>) (cache s)\<rparr>)
                else
                  (let val1 = val\<lparr>access_count := access_count val + 1\<rparr> in
                   if dcheck_on \<and> access_count val1 \<noteq> 1 then Inl DCheck_access_count
                   else
                     (let ((img, calls), s1) =
                            (if image val1 = None
                             then ImageFromPicture opts gr pic physical_size incoming_ctm s
                             else ((image val1, []), s));
                          val2 = val1\<lparr>image := img\<rparr>;
                          s2 = s1\<lparr>cache := fmupd key val2 (cache s1)\<rparr>
                      in Inr ((img, calls),
                              (if img \<noteq> None then s2\<lparr>cache_hits := cache_hits s2 + 1\<rparr>
                               else s2)))))))"

subsection \<open>PurgeCache\<close>

text \<open>
  The first loop decrements every entry and collects in an unordered set the keys whose
  counter has become DEAD; the eviction counter grows by the size of that set; the second
  loop erases the keys of the set. The order in which an unordered map is traversed has
  no influence on any of the three.
\<close>

definition PurgeCache :: "'img PictureRasterzier \<Rightarrow> 'img PictureRasterzier" where
  "PurgeCache s =
    (let decremented = fmmap (\<lambda>v. v\<lparr>access_count := access_count v - 1\<rparr>) (cache s);
         keys_to_purge =
           ffilter (\<lambda>k. map_option access_count (fmlookup decremented k) = Some kDeadAccessCount)
             (fmdom decremented)
     in s\<lparr>cache_evictions := cache_evictions s + fcard keys_to_purge,
          cache := fmdrop_fset keys_to_purge decremented\<rparr>)"

subsection \<open>PaintContext and PictureLayer\<close>

text \<open>
  Of the paint context the rasterizer, the options and the frame counter are kept; the
  stopwatch measures real time and is left out. \<^verbatim>\<open>endFrame\<close> purges the cache
  and then draws the statistics text onto the frame's canvas, which leaves the context as
  it is.
\<close>

record 'img PaintContext =
  rasterizer :: "'img PictureRasterzier"
  options :: "CompositorOption \<Rightarrow> bool"
  frame_count :: nat

definition beginFrame :: "'img PaintContext \<Rightarrow> 'img PaintContext" where
  "beginFrame ctx = ctx\<lparr>frame_count := frame_count ctx + 1\<rparr>"

definition endFrame :: "'img PaintContext \<Rightarrow> 'img PaintContext" where
  "endFrame ctx = ctx\<lparr>rasterizer := PurgeCache (rasterizer ctx)\<rparr>"





text \<open>The calls of \<^verbatim>\<open>PictureLayer::Paint\<close> onto the frame's canvas.\<close>

datatype ('img, 's) canvas_call =
    DrawImage 'img 's 's
  | Save
  | Translate 's 's
  | DrawPicture "SkPicture option"
  | Restore

record 's PictureLayer =
  layer_picture :: "SkPicture option"
  layer_offset :: "'s \<times> 's"

text \<open>
  \<^verbatim>\<open>PictureLayer::Paint\<close>. The physical size is the product of the paint bounds
  and the scale factors of the canvas matrix, in floating point, converted to integers; it
  is passed in as \<open>physical_size\<close>, as are the canvas matrix and the frame's GPU
  context. The result is the calls onto the canvas, the calls into the GPU backend and
  the paint context.
\<close>

definition Paint ::
  "bool \<Rightarrow> 's PictureLayer \<Rightarrow> SkISize \<Rightarrow> 's SkMatrix \<Rightarrow> ('tex, 'img, 's) GrContext option \<Rightarrow>
   'img PaintContext \<Rightarrow>
   fault + (('img, 's) canvas_call list \<times> ('tex, 's) gpu_call list \<times> 'img PaintContext)" where
  "Paint dcheck_on layer physical_size ctm gr_context ctx =
    (if dcheck_on \<and> layer_picture layer = None then Inl DCheck_picture
     else
       (case GetCachedImageIfPresent dcheck_on (options ctx) gr_context (layer_picture layer)
               physical_size ctm (rasterizer ctx) of
          Inl f \<Rightarrow> Inl f
        | Inr ((img, calls), r) \<Rightarrow>
            Inr ((case img of
                    Some i \<Rightarrow> [DrawImage i (fst (layer_offset layer)) (snd (layer_offset layer))]
                  | None \<Rightarrow>
                      [Save,
                       Translate (fst (layer_offset layer)) (snd (layer_offset layer)),
                       DrawPicture (layer_picture layer),
                       Restore]),
                 calls, ctx\<lparr>rasterizer := r\<rparr>)))"

subsection \<open>Sequences of calls\<close>

text \<open>
  The rasterizer is driven by lookups and purges. A request holds the arguments of one
  \<^verbatim>\<open>GetCachedImageIfPresent\<close> call; \<open>key_of\<close> is the key the call builds, when
  it gets past its first check.
\<close>

record ('tex, 'img, 's) request =
  req_gr_context :: "('tex, 'img, 's) GrContext option"
  req_picture :: "SkPicture option"
  req_physical_size :: SkISize
  req_ctm :: "'s SkMatrix"

datatype ('tex, 'img, 's) call = Lookup "('tex, 'img, 's) request" | Purge

definition key_of :: "('tex, 'img, 's) request \<Rightarrow> Key option" where
  "key_of r =
    (case (req_gr_context r, req_picture r) of
       (Some gr, Some pic) \<Rightarrow>
         if isEmpty (req_physical_size r) then None
         else Some \<lparr>pictureID = uniqueID pic, key_size = req_physical_size r\<rparr>
     | _ \<Rightarrow> None)"

definition lookup ::
  "bool \<Rightarrow> (CompositorOption \<Rightarrow> bool) \<Rightarrow> ('tex, 'img, 's) request \<Rightarrow> 'img PictureRasterzier \<Rightarrow>
   fault + (('img option \<times> ('tex, 's) gpu_call list) \<times> 'img PictureRasterzier)" where
  "lookup dcheck_on opts r s =
     GetCachedImageIfPresent dcheck_on opts (req_gr_context r) (req_picture r)
       (req_physical_size r) (req_ctm r) s"

text \<open>\<open>run\<close> is the state after a sequence of calls, or the fault that ended it.\<close>

fun run ::
  "bool \<Rightarrow> (CompositorOption \<Rightarrow> bool) \<Rightarrow> ('tex, 'img, 's) call list \<Rightarrow> 'img PictureRasterzier \<Rightarrow>
   fault + 'img PictureRasterzier" where
  "run dcheck_on opts [] s = Inr s"
| "run dcheck_on opts (Purge # cs) s = run dcheck_on opts cs (PurgeCache s)"
| "run dcheck_on opts (Lookup r # cs) s =
     (case lookup dcheck_on opts r s of
        Inl f \<Rightarrow> Inl f
      | Inr (res, s') \<Rightarrow> run dcheck_on opts cs s')"

text \<open>
  \<open>exec\<close> records every call that returned: the call, the image a lookup returned,
  the state before and the state after; and the fault, if one ended the sequence.
\<close>

fun exec ::
  "bool \<Rightarrow> (CompositorOption \<Rightarrow> bool) \<Rightarrow> ('tex, 'img, 's) call list \<Rightarrow> 'img PictureRasterzier \<Rightarrow>
   (('tex, 'img, 's) call \<times> 'img option \<times> 'img PictureRasterzier \<times> 'img PictureRasterzier) list
   \<times> fault option" where
  "exec dcheck_on opts [] s = ([], None)"
| "exec dcheck_on opts (Purge # cs) s =
     (let s' = PurgeCache s; (steps, f) = exec dcheck_on opts cs s'
      in ((Purge, None, s, s') # steps, f))"
| "exec dcheck_on opts (Lookup r # cs) s =
     (case lookup dcheck_on opts r s of
        Inl f \<Rightarrow> ([], Some f)
      | Inr ((img, calls), s') \<Rightarrow>
          (let (steps, f) = exec dcheck_on opts cs s'
           in ((Lookup r, img, s, s') # steps, f)))"

text \<open>
  The per-frame discipline: a frame is the lookups between two purges, and within a frame
  no key is looked up twice. \<open>seen\<close> holds the keys looked up so far in the current
  frame; \<open>current_frame_keys\<close> is that set after a sequence of calls.
\<close>

fun disciplined :: "Key fset \<Rightarrow> ('tex, 'img, 's) call list \<Rightarrow> bool" where
  "disciplined seen [] = True"
| "disciplined seen (Purge # cs) = disciplined {||} cs"
| "disciplined seen (Lookup r # cs) =
     (case key_of r of
        None \<Rightarrow> disciplined seen cs
      | Some k \<Rightarrow> k |\<notin>| seen \<and> disciplined (finsert k seen) cs)"

fun current_frame_keys :: "Key fset \<Rightarrow> ('tex, 'img, 's) call list \<Rightarrow> Key fset" where
  "current_frame_keys seen [] = seen"
| "current_frame_keys seen (Purge # cs) = current_frame_keys {||} cs"
| "current_frame_keys seen (Lookup r # cs) =
     (case key_of r of
        None \<Rightarrow> current_frame_keys seen cs
      | Some k \<Rightarrow> current_frame_keys (finsert k seen) cs)"

subsection \<open>Predicates on states and calls\<close>

text \<open>
  The states of a disciplined run: every key looked up in the current frame is in the
  map with counter 1, and every other entry has counter 0.
\<close>

definition frame_inv :: "Key fset \<Rightarrow> 'img PictureRasterzier \<Rightarrow> bool" where
  "frame_inv seen s \<longleftrightarrow>
     seen |\<subseteq>| fmdom (cache s) \<and>
     (\<forall>k v. fmlookup (cache s) k = Some v \<longrightarrow> access_count v = (if k |\<in>| seen then 1 else 0))"

text \<open>The counter of the entry of a key, when the map has one.\<close>

definition counter_of :: "'img PictureRasterzier \<Rightarrow> Key \<Rightarrow> int option" where
  "counter_of s k = map_option access_count (fmlookup (cache s) k)"

text \<open>The key has no entry, or an entry without an image.\<close>

definition image_absent :: "Key \<Rightarrow> 'img PictureRasterzier \<Rightarrow> bool" where
  "image_absent k s \<longleftrightarrow> (case fmlookup (cache s) k of None \<Rightarrow> True | Some v \<Rightarrow> image v = None)"

text \<open>The call is a lookup that builds the key.\<close>

fun looks_up :: "Key \<Rightarrow> ('tex, 'img, 's) call \<Rightarrow> bool" where
  "looks_up k Purge = False"
| "looks_up k (Lookup r) = (key_of r = Some k)"

fun is_lookup :: "('tex, 'img, 's) call \<Rightarrow> bool" where
  "is_lookup Purge = False"
| "is_lookup (Lookup r) = True"

text \<open>The texture provider of the request's backend refuses the texture the call asks for.\<close>

definition alloc_fails :: "('tex, 'img, 's) request \<Rightarrow> bool" where
  "alloc_fails r \<longleftrightarrow>
     (case req_gr_context r of
        None \<Rightarrow> True
      | Some gr \<Rightarrow>
          createTexture gr \<lparr>fWidth = width (req_physical_size r),
                            fHeight = height (req_physical_size r)\<rparr> = None)"

subsection \<open>Concrete inputs\<close>

text \<open>
  The picture with identity 7 at physical size 200 x 100 under a scale of 2; a backend
  that allocates and one under memory pressure. Texture handles and images are numbers
  here, and so are scalars.
\<close>

definition gr_ok :: "(nat, nat, int) GrContext" where
  "gr_ok = \<lparr>createTexture = (\<lambda>d. Some 3), NewFromTexture = (\<lambda>d. Some 9)\<rparr>"

definition gr_fail :: "(nat, nat, int) GrContext" where
  "gr_fail = \<lparr>createTexture = (\<lambda>d. None), NewFromTexture = (\<lambda>d. Some 9)\<rparr>"

definition pic7 :: SkPicture where
  "pic7 = \<lparr>uniqueID = 7\<rparr>"

definition size7 :: SkISize where
  "size7 = \<lparr>width = 200, height = 100\<rparr>"

definition ctm2 :: "int SkMatrix" where
  "ctm2 = \<lparr>getScaleX = 2, getScaleY = 2\<rparr>"

definition key7 :: Key where
  "key7 = \<lparr>pictureID = 7, key_size = \<lparr>width = 200, height = 100\<rparr>\<rparr>"

definition req_ok :: "(nat, nat, int) request" where
  "req_ok = \<lparr>req_gr_context = Some gr_ok, req_picture = Some pic7,
              req_physical_size = size7, req_ctm = ctm2\<rparr>"

definition req_fail :: "(nat, nat, int) request" where
  "req_fail = \<lparr>req_gr_context = Some gr_fail, req_picture = Some pic7,
                req_physical_size = size7, req_ctm = ctm2\<rparr>"

definition no_opts :: "CompositorOption \<Rightarrow> bool" where
  "no_opts opt = False"

definition ctor0 :: "nat PictureRasterzier" where
  "ctor0 = PictureRasterzier_ctor"

definition state_fresh7 :: "nat PictureRasterzier" where
  "state_fresh7 =
     \<lparr>cache = fmupd key7 \<lparr>access_count = 1, image = None\<rparr> fmempty,
      cache_hits = 0, cache_fills = 0, cache_evictions = 0\<rparr>"

definition state_idle7 :: "nat PictureRasterzier" where
  "state_idle7 =
     \<lparr>cache = fmupd key7 \<lparr>access_count = 0, image = None\<rparr> fmempty,
      cache_hits = 0, cache_fills = 0, cache_evictions = 0\<rparr>"

definition ctx_idle7 :: "nat PaintContext" where
  "ctx_idle7 = \<lparr>rasterizer = state_idle7, options = no_opts, frame_count = 1\<rparr>"

definition state_cached7 :: "nat PictureRasterzier" where
  "state_cached7 =
     \<lparr>cache = fmupd key7 \<lparr>access_count = 0, image = Some 9\<rparr> fmempty,
      cache_hits = 1, cache_fills = 1, cache_evictions = 0\<rparr>"

definition calls7 :: "(nat, int) gpu_call list" where
  "calls7 =
     [CreateTexture \<lparr>fWidth = 200, fHeight = 100\<rparr>,
      SetMatrix 2 2,
      DrawPictureOffscreen pic7,
      ImageNewFromTexture
        \<lparr>textureDesc_fWidth = Quot 200 2, textureDesc_fHeight = Quot 100 2,
         fTextureHandle = 3\<rparr>]"

definition layer7 :: "int PictureLayer" where
  "layer7 = \<lparr>layer_picture = Some pic7, layer_offset = (10, 20)\<rparr>"

definition state_hit7 :: "nat PictureRasterzier" where
  "state_hit7 =
     \<lparr>cache = fmupd key7 \<lparr>access_count = 1, image = Some 9\<rparr> fmempty,
      cache_hits = 1, cache_fills = 1, cache_evictions = 0\<rparr>"

definition state_evicted7 :: "nat PictureRasterzier" where
  "state_evicted7 = \<lparr>cache = fmempty, cache_hits = 1, cache_fills = 1, cache_evictions = 1\<rparr>"






section \<open>Verification\<close>

subsection \<open>The concrete inputs\<close>

lemma size7_not_empty: "\<not> isEmpty size7"
  by (simp add: isEmpty_def size7_def)

lemma key_of_req_ok: "key_of req_ok = Some key7"
  by (simp add: key_of_def req_ok_def key7_def pic7_def size7_def isEmpty_def)

lemma key_of_req_fail: "key_of req_fail = Some key7"
  by (simp add: key_of_def req_fail_def key7_def pic7_def size7_def isEmpty_def)

lemma alloc_fails_req_fail: "alloc_fails req_fail"
  by (simp add: alloc_fails_def req_fail_def gr_fail_def)

subsection \<open>One lookup\<close>

lemma key_of_SomeD:
  "key_of r = Some k \<Longrightarrow>
     \<exists>gr pic. req_gr_context r = Some gr \<and> req_picture r = Some pic \<and>
       \<not> isEmpty (req_physical_size r) \<and>
       k = \<lparr>pictureID = uniqueID pic, key_size = req_physical_size r\<rparr>"
  by (auto simp: key_of_def split: option.splits if_splits)

lemma lookup_no_key: "key_of r = None \<Longrightarrow> lookup d opts r s = Inr ((None, []), s)"
  by (auto simp: key_of_def lookup_def GetCachedImageIfPresent_def split: option.splits if_splits)

lemma lookup_fresh:
  assumes "key_of r = Some k" "fmlookup (cache s) k = None"
  shows "lookup d opts r s =
           Inr ((None, []), s\<lparr>cache := fmupd k \<lparr>access_count = 1, image = None\<rparr> (cache s)\<rparr>)"
  using key_of_SomeD[OF assms(1)] assms(2)
  by (auto simp: lookup_def GetCachedImageIfPresent_def Value_ctor_def)

text \<open>
  C6. With an empty target size, a null picture or a null GPU context,
  \<^verbatim>\<open>GetCachedImageIfPresent\<close> returns no image, calls nothing in the backend and
  leaves the rasterizer (the map and the three counters) as it was, in every state and in
  both builds.
\<close>

theorem GetCachedImageIfPresent_noop:
  "isEmpty physical_size \<or> picture = None \<or> gr_context = None \<Longrightarrow>
     GetCachedImageIfPresent dcheck_on opts gr_context picture physical_size ctm s =
       Inr ((None, []), s)"
  by (auto simp: GetCachedImageIfPresent_def split: option.splits)

theorem GetCachedImageIfPresent_noop_witness:
  "(isEmpty \<lparr>width = 0, height = 100\<rparr> \<or> Some pic7 = None \<or> Some gr_ok = None) \<and>
   GetCachedImageIfPresent True no_opts (Some gr_ok) (Some pic7) \<lparr>width = 0, height = 100\<rparr>
     ctm2 ctor0 = Inr ((None, []), ctor0)"
  using GetCachedImageIfPresent_noop
    [of "\<lparr>width = 0, height = 100\<rparr>" "Some pic7" "Some gr_ok" True no_opts ctm2 ctor0]
  by (simp add: isEmpty_def)

text \<open>
  C1. The first call for a key that has no entry, with a picture, a GPU context and a
  non-empty size, returns no image, makes no call into the GPU backend (so nothing is
  rasterized, whatever the backend would answer), leaves the three counters alone and
  inserts the entry with counter 1 and no image.
\<close>

theorem first_lookup_is_a_miss:
  assumes "fmlookup (cache s) \<lparr>pictureID = uniqueID pic, key_size = physical_size\<rparr> = None"
    and "\<not> isEmpty physical_size"
  shows "GetCachedImageIfPresent dcheck_on opts (Some gr) (Some pic) physical_size ctm s =
           Inr ((None, []),
                s\<lparr>cache := fmupd \<lparr>pictureID = uniqueID pic, key_size = physical_size\<rparr>
                              \<lparr>access_count = 1, image = None\<rparr> (cache s)\<rparr>)"
  using assms by (simp add: GetCachedImageIfPresent_def Value_ctor_def)

theorem first_lookup_is_a_miss_witness:
  "fmlookup (cache ctor0) \<lparr>pictureID = uniqueID pic7, key_size = size7\<rparr> = None \<and>
   \<not> isEmpty size7 \<and>
   GetCachedImageIfPresent True no_opts (Some gr_ok) (Some pic7) size7 ctm2 ctor0 =
     Inr ((None, []),
          ctor0\<lparr>cache := fmupd \<lparr>pictureID = uniqueID pic7, key_size = size7\<rparr>
                            \<lparr>access_count = 1, image = None\<rparr> (cache ctor0)\<rparr>)"
  using first_lookup_is_a_miss [of ctor0 pic7 size7 True no_opts gr_ok ctm2] size7_not_empty
  by (simp add: ctor0_def PictureRasterzier_ctor_def)

subsection \<open>One purge\<close>

lemma endFrame_purges: "rasterizer (endFrame ctx) = PurgeCache (rasterizer ctx)"
  by (simp add: endFrame_def)

lemma PurgeCache_lookup:
  "fmlookup (cache (PurgeCache s)) k =
    (case fmlookup (cache s) k of
       None \<Rightarrow> None
     | Some v \<Rightarrow> if access_count v - 1 = kDeadAccessCount then None
               else Some (v\<lparr>access_count := access_count v - 1\<rparr>))"
  by (auto simp: PurgeCache_def Let_def fmlookup_dom_iff split: option.splits)




subsection \<open>Sequences of calls\<close>

lemma run_append:
  "run d opts (a @ b) s = (case run d opts a s of Inl f \<Rightarrow> Inl f | Inr s' \<Rightarrow> run d opts b s')"
  by (induction d opts a s rule: run.induct) (auto split: sum.splits)

lemma lookup_other_key:
  assumes "key_of r \<noteq> Some k" "lookup d opts r s = Inr (res, s')"
  shows "fmlookup (cache s') k = fmlookup (cache s) k"
proof (cases "key_of r")
  case None
  then show ?thesis using assms(2) by (simp add: lookup_no_key)
next
  case (Some k')
  then have ne: "k' \<noteq> k" using assms(1) by simp
  from key_of_SomeD[OF Some] obtain gr pic where
    h: "req_gr_context r = Some gr" "req_picture r = Some pic" "\<not> isEmpty (req_physical_size r)"
       "k' = \<lparr>pictureID = uniqueID pic, key_size = req_physical_size r\<rparr>" by blast
  show ?thesis
    using assms(2) h ne
    by (auto simp: lookup_def GetCachedImageIfPresent_def Let_def ImageFromPicture_def
        split: if_splits option.splits prod.splits)
qed

lemma lookup_existing:
  assumes "key_of r = Some k" "fmlookup (cache s) k = Some v" "access_count v = 0"
  shows "\<exists>img calls s'. lookup d opts r s = Inr ((img, calls), s') \<and>
           fmlookup (cache s') k = Some \<lparr>access_count = 1, image = img\<rparr> \<and>
           fmdom (cache s') = fmdom (cache s) \<and>
           (\<forall>k'. k' \<noteq> k \<longrightarrow> fmlookup (cache s') k' = fmlookup (cache s) k')"
proof -
  from key_of_SomeD[OF assms(1)] obtain gr pic where
    h: "req_gr_context r = Some gr" "req_picture r = Some pic" "\<not> isEmpty (req_physical_size r)"
       "k = \<lparr>pictureID = uniqueID pic, key_size = req_physical_size r\<rparr>" by blast
  have dom: "finsert k (fmdom (cache s)) = fmdom (cache s)"
    using assms(2) by (auto simp: fmlookup_dom_iff)
  show ?thesis
    using h assms(2,3) dom
    by (cases v) (auto simp: lookup_def GetCachedImageIfPresent_def Let_def ImageFromPicture_def
        kDeadAccessCount_def split: option.splits prod.splits)
qed

lemma run_other_keys:
  "\<forall>c\<in>set cs. is_lookup c \<and> \<not> looks_up k c \<Longrightarrow> run d opts cs s = Inr s' \<Longrightarrow>
     fmlookup (cache s') k = fmlookup (cache s) k"
proof (induction d opts cs s rule: run.induct)
  case (1 d opts s)
  then show ?case by simp
next
  case (2 d opts cs s)
  then show ?case by simp
next
  case (3 d opts r cs s)
  from "3.prems"(2) obtain res s1 where
    l: "lookup d opts r s = Inr (res, s1)" and r: "run d opts cs s1 = Inr s'"
    by (auto split: sum.splits)
  have "key_of r \<noteq> Some k" using "3.prems"(1) by simp
  from lookup_other_key[OF this l] have "fmlookup (cache s1) k = fmlookup (cache s) k" .
  moreover have "fmlookup (cache s') k = fmlookup (cache s1) k"
    using "3.IH"[OF l refl _ r] "3.prems"(1) by simp
  ultimately show ?case by simp
qed




lemma lookup_req_ok_ctor0: "lookup d opts req_ok ctor0 = Inr ((None, []), state_fresh7)"
  using lookup_fresh[OF key_of_req_ok, of ctor0 d opts]
  by (simp add: ctor0_def PictureRasterzier_ctor_def state_fresh7_def)

lemma lookup_req_fail_ctor0: "lookup d opts req_fail ctor0 = Inr ((None, []), state_fresh7)"
  using lookup_fresh[OF key_of_req_fail, of ctor0 d opts]
  by (simp add: ctor0_def PictureRasterzier_ctor_def state_fresh7_def)

lemma PurgeCache_state_fresh7: "PurgeCache state_fresh7 = state_idle7"
  by (simp add: PurgeCache_def Let_def fmmap_fmupd kDeadAccessCount_def state_fresh7_def
      state_idle7_def)

lemma run_to_state_idle7: "run d opts [Lookup req_ok, Purge] ctor0 = Inr state_idle7"
  by (simp add: lookup_req_ok_ctor0 PurgeCache_state_fresh7)







subsection \<open>The per-frame discipline\<close>

lemma frame_inv_ctor: "frame_inv {||} PictureRasterzier_ctor"
  by (simp add: frame_inv_def PictureRasterzier_ctor_def)

lemma frame_inv_lookup:
  assumes "frame_inv seen s" "key_of r = Some k" "k |\<notin>| seen"
  shows "\<exists>res s'. lookup d opts r s = Inr (res, s') \<and> frame_inv (finsert k seen) s' \<and>
           counter_of s' k = Some 1"
proof (cases "fmlookup (cache s) k")
  case None
  have "frame_inv (finsert k seen)
          (s\<lparr>cache := fmupd k \<lparr>access_count = 1, image = None\<rparr> (cache s)\<rparr>)"
    using assms(1,3) by (auto simp: frame_inv_def)
  then show ?thesis
    using lookup_fresh[OF assms(2) None, of d opts] by (simp add: counter_of_def)
next
  case (Some v)
  then have "access_count v = 0" using assms(1,3) by (auto simp: frame_inv_def)
  from lookup_existing[OF assms(2) Some this, of d opts] obtain img calls s' where
    l: "lookup d opts r s = Inr ((img, calls), s')"
       "fmlookup (cache s') k = Some \<lparr>access_count = 1, image = img\<rparr>"
       "fmdom (cache s') = fmdom (cache s)"
       "\<forall>k'. k' \<noteq> k \<longrightarrow> fmlookup (cache s') k' = fmlookup (cache s) k'" by blast
  have "frame_inv (finsert k seen) s'"
    unfolding frame_inv_def
  proof (intro conjI allI impI)
    show "finsert k seen |\<subseteq>| fmdom (cache s')"
      using assms(1) Some l(3) by (auto simp: frame_inv_def fmlookup_dom_iff)
  next
    fix k' v' assume a: "fmlookup (cache s') k' = Some v'"
    show "access_count v' = (if k' |\<in>| finsert k seen then 1 else 0)"
    proof (cases "k' = k")
      case True
      then show ?thesis using a l(2) by auto
    next
      case False
      then show ?thesis using a l(4) assms(1) by (auto simp: frame_inv_def)
    qed
  qed
  then show ?thesis using l(1,2) by (auto simp: counter_of_def)
qed

lemma frame_inv_purge:
  assumes "frame_inv seen s"
  shows "frame_inv {||} (PurgeCache s)"
  using assms
  by (auto simp: frame_inv_def PurgeCache_lookup kDeadAccessCount_def
      split: option.splits if_splits)

lemma run_frame_inv:
  "frame_inv seen s \<Longrightarrow> disciplined seen calls \<Longrightarrow>
     \<exists>s'. run d opts calls s = Inr s' \<and> frame_inv (current_frame_keys seen calls) s'"
proof (induction seen calls arbitrary: s rule: disciplined.induct)
  case (1 seen)
  then show ?case by simp
next
  case (2 seen cs)
  then show ?case using frame_inv_purge by fastforce
next
  case (3 seen r cs)
  show ?case
  proof (cases "key_of r")
    case None
    then show ?thesis using 3 by (simp add: lookup_no_key)
  next
    case (Some k)
    then have nk: "k |\<notin>| seen" and dc: "disciplined (finsert k seen) cs"
      using "3.prems"(2) by auto
    from frame_inv_lookup[OF "3.prems"(1) Some nk, of d opts] obtain res s' where
      l: "lookup d opts r s = Inr (res, s')" "frame_inv (finsert k seen) s'" by blast
    from "3.IH"(2)[OF Some l(2) dc] show ?thesis using l(1) Some by simp
  qed
qed

lemma disciplined_append:
  "disciplined seen (a @ b) \<longleftrightarrow> disciplined seen a \<and> disciplined (current_frame_keys seen a) b"
  by (induction seen a rule: disciplined.induct) (auto split: option.splits)

lemma disciplined_req_ok_purge: "disciplined {||} [Lookup req_ok, Purge]"
  by (simp add: key_of_req_ok)

text \<open>
  C7. In a sequence of calls from the constructed rasterizer in which no key is looked up
  twice between two purges, every lookup returns in both builds, so
  \<^verbatim>\<open>DCHECK(value.access_count == 1)\<close> does not fail; a lookup that finds an entry
  finds its counter at 0 and leaves it at 1, and a lookup that inserts the entry leaves
  it at 1 as well.
\<close>

theorem disciplined_lookup_leaves_counter_at_one:
  assumes "disciplined {||} (pre @ [Lookup r])"
  shows "\<exists>s res s'.
           run dcheck_on opts pre PictureRasterzier_ctor = Inr s \<and>
           lookup dcheck_on opts r s = Inr (res, s') \<and>
           run dcheck_on opts (pre @ [Lookup r]) PictureRasterzier_ctor = Inr s' \<and>
           (\<forall>k. key_of r = Some k \<longrightarrow>
              counter_of s' k = Some 1 \<and>
              (\<forall>v. fmlookup (cache s) k = Some v \<longrightarrow>
                 access_count v = 0 \<and> counter_of s' k = Some (access_count v + 1)))"
proof -
  from assms have dp: "disciplined {||} pre"
    and dl: "disciplined (current_frame_keys {||} pre) [Lookup r]"
    by (simp_all add: disciplined_append)
  from run_frame_inv[OF frame_inv_ctor dp, of dcheck_on opts] obtain s where
    s: "run dcheck_on opts pre PictureRasterzier_ctor = Inr s"
       "frame_inv (current_frame_keys {||} pre) s" by blast
  show ?thesis
  proof (cases "key_of r")
    case None
    then show ?thesis using s(1) by (simp add: run_append lookup_no_key)
  next
    case (Some k)
    then have nk: "k |\<notin>| current_frame_keys {||} pre" using dl by simp
    from frame_inv_lookup[OF s(2) Some nk, of dcheck_on opts] obtain res s' where
      l: "lookup dcheck_on opts r s = Inr (res, s')" "counter_of s' k = Some 1" by blast
    have "\<forall>v. fmlookup (cache s) k = Some v \<longrightarrow> access_count v = 0"
      using s(2) nk by (auto simp: frame_inv_def)
    then show ?thesis using s(1) l Some by (auto simp: run_append)
  qed
qed

theorem disciplined_lookup_leaves_counter_at_one_witness:
  "disciplined {||} ([Lookup req_ok, Purge] @ [Lookup req_ok]) \<and>
   (\<exists>s res s'.
      run True no_opts [Lookup req_ok, Purge] ctor0 = Inr s \<and>
      lookup True no_opts req_ok s = Inr (res, s') \<and>
      run True no_opts ([Lookup req_ok, Purge] @ [Lookup req_ok]) ctor0 = Inr s' \<and>
      counter_of s' key7 = Some 1 \<and>
      fmlookup (cache s) key7 = Some \<lparr>access_count = 0, image = None\<rparr>)"
proof -
  have h: "disciplined {||} ([Lookup req_ok, Purge] @ [Lookup req_ok])"
    by (simp add: key_of_req_ok)
  from disciplined_lookup_leaves_counter_at_one[OF h, of True no_opts] obtain s res s' where
    a: "run True no_opts [Lookup req_ok, Purge] PictureRasterzier_ctor = Inr s"
       "lookup True no_opts req_ok s = Inr (res, s')"
       "run True no_opts ([Lookup req_ok, Purge] @ [Lookup req_ok]) PictureRasterzier_ctor = Inr s'"
       "\<forall>k. key_of req_ok = Some k \<longrightarrow> counter_of s' k = Some 1"
    by blast
  from a(1) have "s = state_idle7"
    using run_to_state_idle7[of True no_opts] by (simp add: ctor0_def)
  then have "fmlookup (cache s) key7 = Some \<lparr>access_count = 0, image = None\<rparr>"
    by (simp add: state_idle7_def)
  then show ?thesis using h a key_of_req_ok by (auto simp: ctor0_def)
qed

text \<open>
  C5, as the code has it. In every state that a disciplined sequence of calls reaches from
  the constructed rasterizer, every key looked up in the current frame has an entry, no
  entry of the map is DEAD, and the counter of an entry is 1 when its key has been looked
  up in the current frame and 0 otherwise.
\<close>

theorem disciplined_counters_are_zero_or_one:
  assumes "disciplined {||} calls"
  shows "\<exists>s. run dcheck_on opts calls PictureRasterzier_ctor = Inr s \<and>
           current_frame_keys {||} calls |\<subseteq>| fmdom (cache s) \<and>
           (\<forall>k v. fmlookup (cache s) k = Some v \<longrightarrow>
              access_count v \<noteq> kDeadAccessCount \<and>
              (access_count v = 0 \<or> access_count v = 1) \<and>
              (k |\<in>| current_frame_keys {||} calls \<longleftrightarrow> access_count v = 1))"
proof -
  from run_frame_inv[OF frame_inv_ctor assms, of dcheck_on opts] obtain s where
    s: "run dcheck_on opts calls PictureRasterzier_ctor = Inr s"
       "frame_inv (current_frame_keys {||} calls) s" by blast
  from s(2) have "current_frame_keys {||} calls |\<subseteq>| fmdom (cache s)"
    by (simp add: frame_inv_def)
  moreover from s(2) have "\<forall>k v. fmlookup (cache s) k = Some v \<longrightarrow>
      access_count v \<noteq> kDeadAccessCount \<and>
      (access_count v = 0 \<or> access_count v = 1) \<and>
      (k |\<in>| current_frame_keys {||} calls \<longleftrightarrow> access_count v = 1)"
    by (auto simp: frame_inv_def kDeadAccessCount_def)
  ultimately show ?thesis using s(1) by blast
qed

theorem disciplined_counters_are_zero_or_one_witness:
  "disciplined {||} [Lookup req_ok, Purge] \<and>
   (\<exists>s. run True no_opts [Lookup req_ok, Purge] ctor0 = Inr s \<and>
      current_frame_keys {||} [Lookup req_ok, Purge] |\<subseteq>| fmdom (cache s) \<and>
      fmlookup (cache s) key7 = Some \<lparr>access_count = 0, image = None\<rparr> \<and>
      key7 |\<notin>| current_frame_keys {||} [Lookup req_ok, Purge])"
proof -
  from disciplined_counters_are_zero_or_one[OF disciplined_req_ok_purge, of True no_opts]
  obtain s where
    a: "run True no_opts [Lookup req_ok, Purge] PictureRasterzier_ctor = Inr s"
       "current_frame_keys {||} [Lookup req_ok, Purge] |\<subseteq>| fmdom (cache s)"
    by blast
  from a(1) have "s = state_idle7"
    using run_to_state_idle7[of True no_opts] by (simp add: ctor0_def)
  then have "fmlookup (cache s) key7 = Some \<lparr>access_count = 0, image = None\<rparr>"
    by (simp add: state_idle7_def)
  then show ?thesis using a disciplined_req_ok_purge by (auto simp: ctor0_def key_of_req_ok)
qed

text \<open>
  C5 as stated fails: after one lookup and the purge that ends its frame, the entry is in
  the map with counter 0, which is neither DEAD nor positive.
\<close>

theorem idle_entry_counter_is_zero:
  "disciplined {||} [Lookup req_ok, Purge] \<and>
   run True no_opts [Lookup req_ok, Purge] ctor0 = Inr state_idle7 \<and>
   counter_of state_idle7 key7 = Some 0 \<and>
   \<not> (counter_of state_idle7 key7 = Some kDeadAccessCount \<or>
      (\<exists>c. counter_of state_idle7 key7 = Some c \<and> 0 < c))"
  by (simp add: key_of_req_ok lookup_req_ok_ctor0 PurgeCache_state_fresh7 counter_of_def
      state_idle7_def kDeadAccessCount_def)

subsection \<open>After an eviction\<close>

lemma run_absent_preserved:
  "\<forall>c\<in>set cs. \<not> looks_up k c \<Longrightarrow> fmlookup (cache s) k = None \<Longrightarrow>
     run d opts cs s = Inr s' \<Longrightarrow> fmlookup (cache s') k = None"
proof (induction d opts cs s rule: run.induct)
  case (1 d opts s)
  then show ?case by simp
next
  case (2 d opts cs s)
  have "fmlookup (cache (PurgeCache s)) k = None"
    using "2.prems"(2) by (simp add: PurgeCache_lookup)
  then show ?case using 2 by simp
next
  case (3 d opts r cs s)
  from "3.prems"(3) obtain res s1 where
    l: "lookup d opts r s = Inr (res, s1)" and r: "run d opts cs s1 = Inr s'"
    by (auto split: sum.splits)
  have "key_of r \<noteq> Some k" using "3.prems"(1) by simp
  from lookup_other_key[OF this l] have "fmlookup (cache s1) k = None"
    using "3.prems"(2) by simp
  then show ?case using "3.IH"[OF l refl _ _ r] "3.prems"(1) by simp
qed

text \<open>
  C10. When a purge has removed the entry of a key, the next lookup of that key, whatever
  purges and lookups of other keys come in between, does what the lookup of a key never
  seen does: it returns no image, calls nothing in the GPU backend, and inserts the entry
  with counter 1 and no image, also when the evicted entry held an image.
\<close>

theorem evicted_key_starts_over:
  assumes "fmlookup (cache s) k = Some v"
    and "fmlookup (cache (PurgeCache s)) k = None"
    and "\<forall>c\<in>set later. \<not> looks_up k c"
    and "run dcheck_on opts (Purge # later) s = Inr s'"
    and "key_of r = Some k"
  shows "fmlookup (cache s') k = None \<and>
         lookup dcheck_on opts r s' =
           Inr ((None, []), s'\<lparr>cache := fmupd k \<lparr>access_count = 1, image = None\<rparr> (cache s')\<rparr>)"
proof -
  from assms(4) have "run dcheck_on opts later (PurgeCache s) = Inr s'" by simp
  from run_absent_preserved[OF assms(3) assms(2) this]
  have n: "fmlookup (cache s') k = None" .
  from lookup_fresh[OF assms(5) n] n show ?thesis by simp
qed

theorem evicted_key_starts_over_witness:
  "fmlookup (cache state_cached7) key7 = Some \<lparr>access_count = 0, image = Some 9\<rparr> \<and>
   fmlookup (cache (PurgeCache state_cached7)) key7 = None \<and>
   run True no_opts (Purge # []) state_cached7 = Inr (PurgeCache state_cached7) \<and>
   key_of req_ok = Some key7 \<and>
   lookup True no_opts req_ok (PurgeCache state_cached7) =
     Inr ((None, []),
          (PurgeCache state_cached7)
            \<lparr>cache := fmupd key7 \<lparr>access_count = 1, image = None\<rparr>
                        (cache (PurgeCache state_cached7))\<rparr>)"
proof -
  have h1: "fmlookup (cache state_cached7) key7 = Some \<lparr>access_count = 0, image = Some 9\<rparr>"
    by (simp add: state_cached7_def)
  have h2: "fmlookup (cache (PurgeCache state_cached7)) key7 = None"
    by (simp add: PurgeCache_lookup h1 kDeadAccessCount_def)
  have h3: "\<forall>c\<in>set ([] :: (nat, nat, int) call list). \<not> looks_up key7 c" by simp
  have h4: "run True no_opts (Purge # []) state_cached7 = Inr (PurgeCache state_cached7)"
    by simp
  from evicted_key_starts_over[OF h1 h2 h3 h4 key_of_req_ok] h1 h2 h4 key_of_req_ok
  show ?thesis by blast
qed

subsection \<open>The second frame\<close>

lemma ImageFromPicture_state:
  "snd (ImageFromPicture opts gr pic sz ctm s) =
     (if fst (fst (ImageFromPicture opts gr pic sz ctm s)) \<noteq> None
      then s\<lparr>cache_fills := cache_fills s + 1\<rparr> else s)"
  by (simp add: ImageFromPicture_def Let_def split: option.splits)

lemma lookup_idle_without_image:
  assumes "key_of r = Some k" "fmlookup (cache s) k = Some \<lparr>access_count = 0, image = None\<rparr>"
    and "req_gr_context r = Some gr" "req_picture r = Some pic"
    and "fst (ImageFromPicture opts gr pic (req_physical_size r) (req_ctm r) s) = (img, calls)"
  shows "lookup d opts r s =
     Inr ((img, calls),
          (if img \<noteq> None
           then s\<lparr>cache_fills := cache_fills s + 1,
                  cache := fmupd k \<lparr>access_count = 1, image = img\<rparr> (cache s),
                  cache_hits := cache_hits s + 1\<rparr>
           else s\<lparr>cache := fmupd k \<lparr>access_count = 1, image = img\<rparr> (cache s)\<rparr>))"
proof -
  from key_of_SomeD[OF assms(1)] assms(3,4) have
    h: "\<not> isEmpty (req_physical_size r)"
       "k = \<lparr>pictureID = uniqueID pic, key_size = req_physical_size r\<rparr>" by auto
  obtain s1 where
    i: "ImageFromPicture opts gr pic (req_physical_size r) (req_ctm r) s = ((img, calls), s1)"
    using assms(5) by (cases "ImageFromPicture opts gr pic (req_physical_size r) (req_ctm r) s") auto
  from ImageFromPicture_state[of opts gr pic "req_physical_size r" "req_ctm r" s] i
  have s1: "s1 = (if img \<noteq> None then s\<lparr>cache_fills := cache_fills s + 1\<rparr> else s)" by simp
  show ?thesis
    using h assms(2,3,4) i s1
    by (simp add: lookup_def GetCachedImageIfPresent_def Let_def kDeadAccessCount_def)
qed

text \<open>
  C3, as the code has it. A key with no entry is looked up in one frame: a miss. After
  the rest of that frame, its purge and any lookups of other keys in the next frame, the
  key is looked up again: when \<^verbatim>\<open>ImageFromPicture\<close> yields an image in that call,
  the call returns this image and adds exactly 1 to the hit counter (and 1 to the fill
  counter); the entry then holds the image, with counter 1.
\<close>

theorem hit_after_warm_up:
  assumes "key_of r1 = Some k" and "key_of r2 = Some k"
    and "fmlookup (cache s) k = None"
    and "\<forall>c\<in>set rest \<union> set before. is_lookup c \<and> \<not> looks_up k c"
    and "run dcheck_on opts (Lookup r1 # rest @ Purge # before) s = Inr s2"
    and "req_gr_context r2 = Some gr" and "req_picture r2 = Some pic"
    and "fst (ImageFromPicture opts gr pic (req_physical_size r2) (req_ctm r2) s2) =
           (Some i, calls)"
  shows "lookup dcheck_on opts r1 s =
           Inr ((None, []), s\<lparr>cache := fmupd k \<lparr>access_count = 1, image = None\<rparr> (cache s)\<rparr>) \<and>
         (\<exists>s3. lookup dcheck_on opts r2 s2 = Inr ((Some i, calls), s3) \<and>
            cache_hits s3 = cache_hits s2 + 1 \<and>
            cache_fills s3 = cache_fills s2 + 1 \<and>
            cache_evictions s3 = cache_evictions s2 \<and>
            fmlookup (cache s3) k = Some \<lparr>access_count = 1, image = Some i\<rparr>)"
proof -
  let ?s1 = "s\<lparr>cache := fmupd k \<lparr>access_count = 1, image = None\<rparr> (cache s)\<rparr>"
  have l1: "lookup dcheck_on opts r1 s = Inr ((None, []), ?s1)"
    by (rule lookup_fresh[OF assms(1,3)])
  with assms(5) have "run dcheck_on opts (rest @ Purge # before) ?s1 = Inr s2" by simp
  then obtain s1' where
    f1: "run dcheck_on opts rest ?s1 = Inr s1'" and
    f2: "run dcheck_on opts before (PurgeCache s1') = Inr s2"
    by (auto simp: run_append split: sum.splits)
  have "fmlookup (cache s1') k = fmlookup (cache ?s1) k"
    using run_other_keys[OF _ f1] assms(4) by simp
  then have "fmlookup (cache (PurgeCache s1')) k = Some \<lparr>access_count = 0, image = None\<rparr>"
    by (simp add: PurgeCache_lookup kDeadAccessCount_def)
  moreover have "fmlookup (cache s2) k = fmlookup (cache (PurgeCache s1')) k"
    using run_other_keys[OF _ f2] assms(4) by simp
  ultimately have e: "fmlookup (cache s2) k = Some \<lparr>access_count = 0, image = None\<rparr>" by simp
  from lookup_idle_without_image[OF assms(2) e assms(6,7,8), of dcheck_on]
  show ?thesis using l1 by simp
qed

lemma ImageFromPicture_req_ok:
  "fst (ImageFromPicture no_opts gr_ok pic7 (req_physical_size req_ok) (req_ctm req_ok) s) =
     (Some 9, calls7)"
  by (simp add: ImageFromPicture_def Let_def gr_ok_def req_ok_def size7_def ctm2_def
      no_opts_def calls7_def)

theorem hit_after_warm_up_witness:
  "key_of req_ok = Some key7 \<and> fmlookup (cache ctor0) key7 = None \<and>
   run True no_opts (Lookup req_ok # [] @ Purge # []) ctor0 = Inr state_idle7 \<and>
   req_gr_context req_ok = Some gr_ok \<and> req_picture req_ok = Some pic7 \<and>
   fst (ImageFromPicture no_opts gr_ok pic7 (req_physical_size req_ok) (req_ctm req_ok)
          state_idle7) = (Some 9, calls7) \<and>
   (\<exists>s3. lookup True no_opts req_ok state_idle7 = Inr ((Some 9, calls7), s3) \<and>
      cache_hits s3 = cache_hits state_idle7 + 1 \<and>
      cache_fills s3 = cache_fills state_idle7 + 1 \<and>
      cache_evictions s3 = cache_evictions state_idle7 \<and>
      fmlookup (cache s3) key7 = Some \<lparr>access_count = 1, image = Some 9\<rparr>)"
proof -
  have h3: "fmlookup (cache ctor0) key7 = None"
    by (simp add: ctor0_def PictureRasterzier_ctor_def)
  have h4: "\<forall>c\<in>set [] \<union> set []. is_lookup c \<and> \<not> looks_up key7 (c :: (nat, nat, int) call)"
    by simp
  have h5: "run True no_opts (Lookup req_ok # [] @ Purge # []) ctor0 = Inr state_idle7"
    by (simp add: lookup_req_ok_ctor0 PurgeCache_state_fresh7)
  have h6: "req_gr_context req_ok = Some gr_ok" and h7: "req_picture req_ok = Some pic7"
    by (simp_all add: req_ok_def)
  from hit_after_warm_up[OF key_of_req_ok key_of_req_ok h3 h4 h5 h6 h7 ImageFromPicture_req_ok]
  show ?thesis using key_of_req_ok h3 h5 h6 h7 ImageFromPicture_req_ok by blast
qed

lemma lookup_req_fail_idle7:
  "lookup d no_opts req_fail state_idle7 =
     Inr ((None, [CreateTexture \<lparr>fWidth = 200, fHeight = 100\<rparr>]), state_fresh7)"
proof -
  have e: "fmlookup (cache state_idle7) key7 = Some \<lparr>access_count = 0, image = None\<rparr>"
    by (simp add: state_idle7_def)
  have g: "req_gr_context req_fail = Some gr_fail" and p: "req_picture req_fail = Some pic7"
    by (simp_all add: req_fail_def)
  have i: "fst (ImageFromPicture no_opts gr_fail pic7 (req_physical_size req_fail)
      (req_ctm req_fail) state_idle7) = (None, [CreateTexture \<lparr>fWidth = 200, fHeight = 100\<rparr>])"
    by (simp add: ImageFromPicture_def Let_def gr_fail_def req_fail_def size7_def)
  from lookup_idle_without_image[OF key_of_req_fail e g p i, of d]
  show ?thesis by (simp add: state_idle7_def state_fresh7_def)
qed

text \<open>
  C3 as stated fails: when the texture provider cannot allocate in the second frame, the
  call of the second frame returns no image and the hit counter stays where it was.
\<close>

theorem no_hit_when_allocation_fails:
  "key_of req_fail = Some key7 \<and> fmlookup (cache ctor0) key7 = None \<and>
   lookup True no_opts req_fail ctor0 = Inr ((None, []), state_fresh7) \<and>
   PurgeCache state_fresh7 = state_idle7 \<and>
   lookup True no_opts req_fail state_idle7 =
     Inr ((None, [CreateTexture \<lparr>fWidth = 200, fHeight = 100\<rparr>]), state_fresh7) \<and>
   cache_hits state_fresh7 = cache_hits state_idle7"
proof -
  have n: "fmlookup (cache ctor0) key7 = None"
    by (simp add: ctor0_def PictureRasterzier_ctor_def)
  have c: "cache_hits state_fresh7 = cache_hits state_idle7"
    by (simp add: state_idle7_def state_fresh7_def)
  from n c key_of_req_fail lookup_req_fail_ctor0[of True no_opts] PurgeCache_state_fresh7
    lookup_req_fail_idle7[of True]
  show ?thesis by blast
qed

subsection \<open>Allocation failure\<close>

lemma lookup_alloc_fails:
  assumes "key_of r = Some k" "alloc_fails r" "image_absent k s"
    and "lookup d opts r s = Inr ((img, calls), s')"
  shows "img = None \<and> cache_fills s' = cache_fills s \<and> cache_hits s' = cache_hits s \<and>
         (\<exists>v. fmlookup (cache s') k = Some v \<and> image v = None)"
proof -
  from key_of_SomeD[OF assms(1)] obtain gr pic where
    h: "req_gr_context r = Some gr" "req_picture r = Some pic" "\<not> isEmpty (req_physical_size r)"
       "k = \<lparr>pictureID = uniqueID pic, key_size = req_physical_size r\<rparr>" by blast
  from assms(2) h(1) have
    f: "createTexture gr \<lparr>fWidth = width (req_physical_size r),
          fHeight = height (req_physical_size r)\<rparr> = None"
    by (simp add: alloc_fails_def)
  show ?thesis
  proof (cases "fmlookup (cache s) k")
    case None
    then show ?thesis
      using lookup_fresh[OF assms(1) None, of d opts] assms(4) by auto
  next
    case (Some v)
    then have "image v = None" using assms(3) by (simp add: image_absent_def)
    then show ?thesis
      using assms(4) h f Some
      by (auto simp: lookup_def GetCachedImageIfPresent_def Let_def ImageFromPicture_def
          split: if_splits)
  qed
qed

lemma image_absent_purge: "image_absent k s \<Longrightarrow> image_absent k (PurgeCache s)"
  by (auto simp: image_absent_def PurgeCache_lookup split: option.splits)

lemma image_absent_lookup:
  assumes "image_absent k s" "key_of r = Some k \<longrightarrow> alloc_fails r"
    and "lookup d opts r s = Inr ((img, calls), s')"
  shows "image_absent k s'"
proof (cases "key_of r = Some k")
  case True
  with lookup_alloc_fails[OF True _ assms(1,3)] assms(2) show ?thesis
    by (auto simp: image_absent_def)
next
  case False
  from lookup_other_key[OF False assms(3)] assms(1) show ?thesis
    by (simp add: image_absent_def)
qed

lemma lookup_release_build: "\<exists>res s'. lookup False opts r s = Inr (res, s')"
  by (auto simp: lookup_def GetCachedImageIfPresent_def Let_def split: option.splits prod.splits)

lemma exec_steps:
  assumes "image_absent k s"
    and "\<forall>c\<in>set cs. \<forall>r. c = Lookup r \<and> key_of r = Some k \<longrightarrow> alloc_fails r"
  shows "\<forall>(c, img, s1, s2)\<in>set (fst (exec d opts cs s)).
           c \<in> set cs \<and> image_absent k s1 \<and>
           (\<forall>r. c = Lookup r \<longrightarrow> (\<exists>calls. lookup d opts r s1 = Inr ((img, calls), s2)))"
  using assms
proof (induction d opts cs s rule: exec.induct)
  case (1 d opts s)
  then show ?case by simp
next
  case (2 d opts cs s)
  have "image_absent k (PurgeCache s)" using "2.prems"(1) by (rule image_absent_purge)
  from "2.IH"[OF refl this] "2.prems" show ?case
    by (auto simp: Let_def split: prod.splits)
next
  case (3 d opts r cs s)
  show ?case
  proof (cases "lookup d opts r s")
    case (Inl f)
    then show ?thesis by simp
  next
    case (Inr x)
    then obtain img calls s' where l: "lookup d opts r s = Inr ((img, calls), s')"
      by (cases x) auto
    have "image_absent k s'"
      using image_absent_lookup[OF "3.prems"(1) _ l] "3.prems"(2) by simp
    from "3.IH"[OF l refl refl this] "3.prems" l show ?thesis
      by (auto simp: Let_def split: prod.splits)
  qed
qed

lemma exec_release_build:
  "snd (exec False opts cs s) = None \<and> map fst (fst (exec False opts cs s)) = cs"
proof (induction "False" opts cs s rule: exec.induct)
  case (1 opts s)
  then show ?case by simp
next
  case (2 opts cs s)
  then show ?case by (auto simp: Let_def split: prod.splits)
next
  case (3 opts r cs s)
  from lookup_release_build[of opts r s] obtain img calls s' where
    l: "lookup False opts r s = Inr ((img, calls), s')" by auto
  from "3.hyps"[OF l refl refl] l show ?case by (auto simp: Let_def split: prod.splits)
qed

lemma Paint_replays:
  assumes "lookup d opts r s1 = Inr ((None, calls), s2)" "key_of r = Some k"
    and "layer_picture layer = req_picture r" "rasterizer ctx = s1" "options ctx = opts"
  shows "Paint d layer (req_physical_size r) (req_ctm r) (req_gr_context r) ctx =
           Inr ([Save, Translate (fst (layer_offset layer)) (snd (layer_offset layer)),
                 DrawPicture (req_picture r), Restore],
                calls, ctx\<lparr>rasterizer := s2\<rparr>)"
  using assms key_of_SomeD[OF assms(2)]
  by (auto simp: Paint_def lookup_def)

text \<open>
  C4. Take any sequence of lookups and purges, from a state in which the key has no image,
  such that the texture provider refuses the texture in every lookup of the key. Then for
  every lookup of the key that the sequence makes: it returns no image, the fill counter
  and the hit counter are after the call what they were before it, the entry of the key
  has no image after the call, and \<^verbatim>\<open>PictureLayer::Paint\<close> with these arguments
  draws the picture itself (save, translate by the offset, draw the picture, restore). In
  the build without \<^verbatim>\<open>DCHECK\<close> no call of the sequence is left out.
\<close>

theorem allocation_failure_degrades_to_replay:
  fixes s :: "'img PictureRasterzier" and cs :: "('tex, 'img, 's) call list"
  assumes "image_absent k s"
    and "\<forall>c\<in>set cs. \<forall>r. c = Lookup r \<and> key_of r = Some k \<longrightarrow> alloc_fails r"
  shows "(\<forall>(c, img, s1, s2)\<in>set (fst (exec dcheck_on opts cs s)).
            \<forall>r. c = Lookup r \<and> key_of r = Some k \<longrightarrow>
              img = None \<and> cache_fills s2 = cache_fills s1 \<and> cache_hits s2 = cache_hits s1 \<and>
              (\<exists>v. fmlookup (cache s2) k = Some v \<and> image v = None) \<and>
              (\<forall>layer ctx.
                 layer_picture layer = req_picture r \<and> rasterizer ctx = s1 \<and> options ctx = opts \<longrightarrow>
                 (\<exists>calls.
                    Paint dcheck_on layer (req_physical_size r) (req_ctm r) (req_gr_context r) ctx =
                      Inr ([Save,
                            Translate (fst (layer_offset layer)) (snd (layer_offset layer)),
                            DrawPicture (req_picture r),
                            Restore],
                           calls, ctx\<lparr>rasterizer := s2\<rparr>)))) \<and>
         (\<not> dcheck_on \<longrightarrow>
            snd (exec dcheck_on opts cs s) = None \<and>
            map fst (fst (exec dcheck_on opts cs s)) = cs)"
proof (intro conjI)
  show "\<forall>(c, img, s1, s2)\<in>set (fst (exec dcheck_on opts cs s)).
            \<forall>r. c = Lookup r \<and> key_of r = Some k \<longrightarrow>
              img = None \<and> cache_fills s2 = cache_fills s1 \<and> cache_hits s2 = cache_hits s1 \<and>
              (\<exists>v. fmlookup (cache s2) k = Some v \<and> image v = None) \<and>
              (\<forall>layer ctx.
                 layer_picture layer = req_picture r \<and> rasterizer ctx = s1 \<and> options ctx = opts \<longrightarrow>
                 (\<exists>calls.
                    Paint dcheck_on layer (req_physical_size r) (req_ctm r) (req_gr_context r) ctx =
                      Inr ([Save,
                            Translate (fst (layer_offset layer)) (snd (layer_offset layer)),
                            DrawPicture (req_picture r),
                            Restore],
                           calls, ctx\<lparr>rasterizer := s2\<rparr>)))"
  proof (clarify, intro conjI allI impI)
    fix c img s1 s2 r
    assume m: "(Lookup r, img, s1, s2) \<in> set (fst (exec dcheck_on opts cs s))"
      and kr: "key_of r = Some k"
    from exec_steps[OF assms, of dcheck_on opts] m obtain calls where
      a: "image_absent k s1" and l: "lookup dcheck_on opts r s1 = Inr ((img, calls), s2)"
      and i: "Lookup r \<in> set cs"
      by fastforce
    from i kr assms(2) have f: "alloc_fails r" by blast
    from lookup_alloc_fails[OF kr f a l]
    show n: "img = None" and "cache_fills s2 = cache_fills s1" and "cache_hits s2 = cache_hits s1"
      and "\<exists>v. fmlookup (cache s2) k = Some v \<and> image v = None"
      by simp_all
    fix layer :: "'s PictureLayer" and ctx :: "'img PaintContext"
    assume "layer_picture layer = req_picture r \<and> rasterizer ctx = s1 \<and> options ctx = opts"
    then have "Paint dcheck_on layer (req_physical_size r) (req_ctm r) (req_gr_context r) ctx =
        Inr ([Save, Translate (fst (layer_offset layer)) (snd (layer_offset layer)),
              DrawPicture (req_picture r), Restore],
             calls, ctx\<lparr>rasterizer := s2\<rparr>)"
      using Paint_replays[OF _ kr, of dcheck_on opts s1 calls s2 layer ctx] l n by simp
    then show "\<exists>calls.
                    Paint dcheck_on layer (req_physical_size r) (req_ctm r) (req_gr_context r) ctx =
                      Inr ([Save,
                            Translate (fst (layer_offset layer)) (snd (layer_offset layer)),
                            DrawPicture (req_picture r),
                            Restore],
                           calls, ctx\<lparr>rasterizer := s2\<rparr>)"
      by blast
  qed
next
  show "\<not> dcheck_on \<longrightarrow>
            snd (exec dcheck_on opts cs s) = None \<and>
            map fst (fst (exec dcheck_on opts cs s)) = cs"
    using exec_release_build[of opts cs s] by auto
qed

theorem allocation_failure_degrades_to_replay_witness:
  "image_absent key7 ctor0 \<and> alloc_fails req_fail \<and> key_of req_fail = Some key7 \<and>
   exec True no_opts [Lookup req_fail, Purge, Lookup req_fail] ctor0 =
     ([(Lookup req_fail, None, ctor0, state_fresh7),
       (Purge, None, state_fresh7, state_idle7),
       (Lookup req_fail, None, state_idle7, state_fresh7)], None) \<and>
   cache_fills state_fresh7 = cache_fills state_idle7 \<and>
   cache_hits state_fresh7 = cache_hits state_idle7 \<and>
   (\<exists>v. fmlookup (cache state_fresh7) key7 = Some v \<and> image v = None) \<and>
   (\<exists>calls.
      Paint True layer7 (req_physical_size req_fail) (req_ctm req_fail)
        (req_gr_context req_fail) ctx_idle7 =
        Inr ([Save, Translate (fst (layer_offset layer7)) (snd (layer_offset layer7)),
              DrawPicture (req_picture req_fail), Restore],
             calls, ctx_idle7\<lparr>rasterizer := state_fresh7\<rparr>))"
proof -
  have h1: "image_absent key7 ctor0"
    by (simp add: image_absent_def ctor0_def PictureRasterzier_ctor_def)
  have h2: "\<forall>c\<in>set [Lookup req_fail, Purge, Lookup req_fail].
      \<forall>r. c = Lookup r \<and> key_of r = Some key7 \<longrightarrow> alloc_fails r"
    by (auto simp: alloc_fails_req_fail)
  have ex: "exec True no_opts [Lookup req_fail, Purge, Lookup req_fail] ctor0 =
     ([(Lookup req_fail, None, ctor0, state_fresh7),
       (Purge, None, state_fresh7, state_idle7),
       (Lookup req_fail, None, state_idle7, state_fresh7)], None)"
    by (simp add: lookup_req_fail_ctor0 PurgeCache_state_fresh7 lookup_req_fail_idle7)
  then have m: "(Lookup req_fail, None, state_idle7, state_fresh7)
      \<in> set (fst (exec True no_opts [Lookup req_fail, Purge, Lookup req_fail] ctor0))"
    by simp
  note T = allocation_failure_degrades_to_replay[OF h1 h2, of True no_opts, THEN conjunct1]
  from bspec[OF T m] key_of_req_fail have
    c: "cache_fills state_fresh7 = cache_fills state_idle7 \<and>
        cache_hits state_fresh7 = cache_hits state_idle7 \<and>
        (\<exists>v. fmlookup (cache state_fresh7) key7 = Some v \<and> image v = None) \<and>
        (\<forall>layer ctx.
           layer_picture layer = req_picture req_fail \<and> rasterizer ctx = state_idle7 \<and>
           options ctx = no_opts \<longrightarrow>
           (\<exists>calls.
              Paint True layer (req_physical_size req_fail) (req_ctm req_fail)
                (req_gr_context req_fail) ctx =
                Inr ([Save, Translate (fst (layer_offset layer)) (snd (layer_offset layer)),
                      DrawPicture (req_picture req_fail), Restore],
                     calls, ctx\<lparr>rasterizer := state_fresh7\<rparr>)))"
    by simp
  have "layer_picture layer7 = req_picture req_fail \<and> rasterizer ctx_idle7 = state_idle7 \<and>
      options ctx_idle7 = no_opts"
    by (simp add: layer7_def req_fail_def ctx_idle7_def)
  with c have "\<exists>calls.
      Paint True layer7 (req_physical_size req_fail) (req_ctm req_fail)
        (req_gr_context req_fail) ctx_idle7 =
        Inr ([Save, Translate (fst (layer_offset layer7)) (snd (layer_offset layer7)),
              DrawPicture (req_picture req_fail), Restore],
             calls, ctx_idle7\<lparr>rasterizer := state_fresh7\<rparr>)"
    by blast
  with c h1 ex alloc_fails_req_fail key_of_req_fail show ?thesis by blast
qed

subsection \<open>The scenario of three frames\<close>

lemma lookup_req_ok_idle7:
  "lookup d no_opts req_ok state_idle7 = Inr ((Some 9, calls7), state_hit7)"
proof -
  have e: "fmlookup (cache state_idle7) key7 = Some \<lparr>access_count = 0, image = None\<rparr>"
    by (simp add: state_idle7_def)
  have g: "req_gr_context req_ok = Some gr_ok" and p: "req_picture req_ok = Some pic7"
    by (simp_all add: req_ok_def)
  from lookup_idle_without_image[OF key_of_req_ok e g p ImageFromPicture_req_ok, of d]
  show ?thesis by (simp add: state_idle7_def state_hit7_def)
qed

lemma PurgeCache_state_hit7: "PurgeCache state_hit7 = state_cached7"
  by (simp add: PurgeCache_def Let_def fmmap_fmupd kDeadAccessCount_def state_hit7_def
      state_cached7_def)

lemma PurgeCache_state_cached7: "PurgeCache state_cached7 = state_evicted7"
  by code_simp

text \<open>
  The picture with identity 7 at 200 x 100: a miss in the first frame, a hit in the
  second (one hit, one fill), and the purge of a third frame without a request evicts it.
\<close>

lemma three_frames:
  "run True no_opts [Lookup req_ok, Purge, Lookup req_ok, Purge, Purge] ctor0 =
     Inr state_evicted7"
  by (simp add: lookup_req_ok_ctor0 PurgeCache_state_fresh7 lookup_req_ok_idle7
      PurgeCache_state_hit7 PurgeCache_state_cached7)

subsection \<open>Teardown\<close>








end
